theory Spec2Isabelle
  imports Main "HOL-Library.Word"
begin

unbundle bit_operations_syntax

section \<open>Data model\<close>

text \<open>
  The embedding of \<^verbatim>\<open>rangesByName\<close> (src/rangesByName.ts). The token stream
  \<^verbatim>\<open>data.data\<close> is a \<^verbatim>\<open>Uint32Array\<close>: a list of 32-bit words. Lines and
  columns are JavaScript numbers that only ever grow by unsigned 32-bit amounts, so they are
  natural numbers (sums of such amounts are exact in a double below \<open>2 ^ 53\<close>). A string is a
  list of characters, one per code unit, so that \<^verbatim>\<open>name.length\<close> is \<open>length name\<close>.
\<close>

datatype error = SourceUnavailable

record range =
  startLine :: nat
  startCharacter :: nat
  endLine :: nat
  endCharacter :: nat

text \<open>
  \<^verbatim>\<open>new vscode.Range(line, column, line, column + length)\<close>: both positions are on one
  line and the first is never after the second, so the constructor keeps their order.
\<close>

definition Range :: "nat \<Rightarrow> nat \<Rightarrow> nat \<Rightarrow> nat \<Rightarrow> range" where
  "Range sl sc el ec = \<lparr>startLine = sl, startCharacter = sc, endLine = el, endCharacter = ec\<rparr>"

record legend =
  tokenTypes :: "string list"
  tokenModifiers :: "string list"

text \<open>
  The editor, as far as the function uses it. \<open>getText ed r\<close> is
  \<^verbatim>\<open>editor.document.getText(range)\<close>; \<open>None\<close> stands for an exception thrown while
  the range is resolved. \<open>getTextNaN ed line column\<close> is the same call for the range of a
  truncated last record (fewer than three integers left), whose end character, and for a single
  integer also its start character (\<open>None\<close>), is \<^verbatim>\<open>NaN\<close>.
\<close>

record editor =
  getText :: "range \<Rightarrow> string option"
  getTextNaN :: "nat \<Rightarrow> nat option \<Rightarrow> string option"
  languageId :: string

subsection \<open>JavaScript maps\<close>

text \<open>
  A \<^verbatim>\<open>Map\<close> keeps its keys in insertion order: an association list with distinct keys.
  \<^verbatim>\<open>set\<close> on a key already present replaces the value in place, on a new key it appends.
\<close>

type_synonym ('k, 'v) jsMap = "('k \<times> 'v) list"

definition mapGet :: "('k, 'v) jsMap \<Rightarrow> 'k \<Rightarrow> 'v option" where
  "mapGet m k = map_of m k"

definition mapHas :: "('k, 'v) jsMap \<Rightarrow> 'k \<Rightarrow> bool" where
  "mapHas m k = (mapGet m k \<noteq> None)"

fun mapSet :: "'k \<Rightarrow> 'v \<Rightarrow> ('k, 'v) jsMap \<Rightarrow> ('k, 'v) jsMap" where
  "mapSet k v [] = [(k, v)]"
| "mapSet k v ((k', v') # m) = (if k' = k then (k, v) # m else (k', v') # mapSet k v m)"

definition mapDelete :: "'k \<Rightarrow> ('k, 'v) jsMap \<Rightarrow> ('k, 'v) jsMap" where
  "mapDelete k m = filter (\<lambda>kv. fst kv \<noteq> k) m"

text \<open>
  The pattern of lines 84-88, 101-105 and 110-114: push onto the array stored under the
  name, or store a fresh one-element array.
\<close>

definition pushRange :: "string \<Rightarrow> range \<Rightarrow> (string, range list) jsMap \<Rightarrow> (string, range list) jsMap" where
  "pushRange name r m =
     (case mapGet m name of
        Some rs \<Rightarrow> mapSet name (rs @ [r]) m
      | None \<Rightarrow> mapSet name [r] m)"

record accumulators =
  accumulatorParam :: "(string, range list) jsMap"
  accumulatorVar :: "(string, range list) jsMap"
  accumulatorWithDec :: "(string, bool) jsMap"

section \<open>Decoding one record\<close>

text \<open>\<^verbatim>\<open>legend.tokenTypes[kindIndex]\<close>: \<^verbatim>\<open>undefined\<close> (\<open>None\<close>) out of range.\<close>

definition lookup :: "'a list \<Rightarrow> nat \<Rightarrow> 'a option" where
  "lookup xs i = (if i < length xs then Some (xs ! i) else None)"

text \<open>
  \<^verbatim>\<open>(modifierIndex & (1 << index)) !== 0\<close>. The shift count of \<^verbatim>\<open><<\<close> is taken
  modulo 32 and both operands of \<^verbatim>\<open>&\<close> are 32-bit integers. An \<^verbatim>\<open>undefined\<close>
  modifierIndex (\<open>None\<close>, a last record of four integers) converts to 0.
\<close>

definition modifierSet :: "32 word option \<Rightarrow> nat \<Rightarrow> bool" where
  "modifierSet modifierIndex index =
     (case modifierIndex of
        None \<Rightarrow> False
      | Some w \<Rightarrow> w AND push_bit (index mod 32) 1 \<noteq> 0)"

definition modifiersOf :: "legend \<Rightarrow> 32 word option \<Rightarrow> string list" where
  "modifiersOf lg modifierIndex =
     map snd (filter (\<lambda>p. modifierSet modifierIndex (fst p)) (enumerate 0 (tokenModifiers lg)))"

text \<open>Lines 75-77: the position of the next token.\<close>

definition advance :: "nat \<Rightarrow> nat \<Rightarrow> 32 word \<Rightarrow> 32 word \<Rightarrow> nat \<times> nat" where
  "advance line column deltaLine deltaColumn =
     (let column1 = (if deltaLine = 0 then column else 0);
          line' = line + unat deltaLine;
          column' = column1 + unat deltaColumn
      in (line', column'))"

definition tokenRange :: "nat \<Rightarrow> nat \<Rightarrow> 32 word \<Rightarrow> range" where
  "tokenRange line column len = Range line column line (column + unat len)"

text \<open>Lines 82-115: what one decoded token does to the three accumulators.\<close>

definition classify ::
  "bool \<Rightarrow> bool \<Rightarrow> range \<Rightarrow> string \<Rightarrow> string option \<Rightarrow> string list \<Rightarrow> accumulators \<Rightarrow> accumulators" where
  "classify highlightGlobals highlightClasses r name kind modifiers acc =
     (let acc1 =
        (if highlightGlobals \<or> (''global'' \<notin> set modifiers \<and> length name > 2) then
           (if Some ''variable'' = kind then
              acc\<lparr>accumulatorVar := pushRange name r (accumulatorVar acc)\<rparr>
            else if kind = Some ''parameter'' \<and> ''label'' \<notin> set modifiers then
              (let d1 = (if \<not> mapHas (accumulatorWithDec acc) name
                         then mapSet name False (accumulatorWithDec acc)
                         else accumulatorWithDec acc);
                   d2 = (if ''declaration'' \<in> set modifiers then mapSet name True d1 else d1)
               in acc\<lparr>accumulatorWithDec := d2,
                       accumulatorParam := pushRange name r (accumulatorParam acc)\<rparr>)
            else acc)
         else acc)
      in if highlightClasses \<and> kind = Some ''class''
         then acc1\<lparr>accumulatorVar := pushRange name r (accumulatorVar acc1)\<rparr>
         else acc1)"

section \<open>The decode loop\<close>

text \<open>
  Lines 73-116. Each round takes \<^verbatim>\<open>data.data.slice(i, i + 5)\<close>. A last slice shorter
  than five leaves the missing fields \<^verbatim>\<open>undefined\<close>: without modifierIndex the token has
  no modifiers, without kindIndex it has no kind and is not classified, and without length
  or deltaColumn the range has a \<^verbatim>\<open>NaN\<close> character (the text is still asked for, the
  kind is \<^verbatim>\<open>undefined\<close>, nothing is classified). The loop ends after such a slice.
\<close>

fun decodeLoop ::
  "editor \<Rightarrow> legend \<Rightarrow> bool \<Rightarrow> bool \<Rightarrow> 32 word list \<Rightarrow> nat \<Rightarrow> nat \<Rightarrow> accumulators
     \<Rightarrow> error + accumulators" where
  "decodeLoop ed lg hg hc (deltaLine # deltaColumn # len # kindIndex # modifierIndex # rest)
       line column acc =
     (case advance line column deltaLine deltaColumn of (line', column') \<Rightarrow>
        (case getText ed (tokenRange line' column' len) of
           None \<Rightarrow> Inl SourceUnavailable
         | Some name \<Rightarrow>
             decodeLoop ed lg hg hc rest line' column'
               (classify hg hc (tokenRange line' column' len) name
                  (lookup (tokenTypes lg) (unat kindIndex))
                  (modifiersOf lg (Some modifierIndex)) acc)))"
| "decodeLoop ed lg hg hc [] line column acc = Inr acc"
| "decodeLoop ed lg hg hc [deltaLine, deltaColumn, len, kindIndex] line column acc =
     (case advance line column deltaLine deltaColumn of (line', column') \<Rightarrow>
        (case getText ed (tokenRange line' column' len) of
           None \<Rightarrow> Inl SourceUnavailable
         | Some name \<Rightarrow>
             Inr (classify hg hc (tokenRange line' column' len) name
                    (lookup (tokenTypes lg) (unat kindIndex)) (modifiersOf lg None) acc)))"
| "decodeLoop ed lg hg hc [deltaLine, deltaColumn, len] line column acc =
     (case advance line column deltaLine deltaColumn of (line', column') \<Rightarrow>
        (case getText ed (tokenRange line' column' len) of
           None \<Rightarrow> Inl SourceUnavailable
         | Some name \<Rightarrow>
             Inr (classify hg hc (tokenRange line' column' len) name None
                    (modifiersOf lg None) acc)))"
| "decodeLoop ed lg hg hc [deltaLine, deltaColumn] line column acc =
     (case advance line column deltaLine deltaColumn of (line', column') \<Rightarrow>
        (case getTextNaN ed line' (Some column') of
           None \<Rightarrow> Inl SourceUnavailable
         | Some name \<Rightarrow> Inr acc))"
| "decodeLoop ed lg hg hc [deltaLine] line column acc =
     (case getTextNaN ed (line + unat deltaLine) None of
        None \<Rightarrow> Inl SourceUnavailable
      | Some name \<Rightarrow> Inr acc)"

section \<open>After the loop\<close>

text \<open>Lines 120-124: for \<^verbatim>\<open>cpp\<close> every entry of the declaration map is set to true.\<close>

definition forceDeclared :: "editor \<Rightarrow> accumulators \<Rightarrow> accumulators" where
  "forceDeclared ed acc =
     (if languageId ed = ''cpp''
      then acc\<lparr>accumulatorWithDec :=
             fold (\<lambda>entry d. mapSet (fst entry) True d) (accumulatorWithDec acc)
               (accumulatorWithDec acc)\<rparr>
      else acc)"

text \<open>
  Lines 126-136, one round of the last loop. \<^verbatim>\<open>accumulatorParam.get(name)!\<close> is
  always defined there: the loop stores a name in both maps at once (lemmas
  \<open>decodeLoop_keys\<close> and \<open>forceDeclared_param_defined\<close> below), and a round only
  deletes its own name. The model leaves the accumulators as they are where it would be
  \<^verbatim>\<open>undefined\<close>.
\<close>

definition mergeEntry :: "string \<times> bool \<Rightarrow> accumulators \<Rightarrow> accumulators" where
  "mergeEntry entry acc =
     (case entry of (name, isDeclared) \<Rightarrow>
        if \<not> isDeclared then
          acc\<lparr>accumulatorParam := mapDelete name (accumulatorParam acc)\<rparr>
        else
          (case mapGet (accumulatorParam acc) name of
             None \<Rightarrow> acc
           | Some ps \<Rightarrow>
               (case mapGet (accumulatorVar acc) name of
                  Some vs \<Rightarrow> acc\<lparr>accumulatorVar := mapSet name (vs @ ps) (accumulatorVar acc)\<rparr>
                | None \<Rightarrow> acc\<lparr>accumulatorVar := mapSet name ps (accumulatorVar acc)\<rparr>)))"

definition reconcile :: "accumulators \<Rightarrow> accumulators" where
  "reconcile acc = fold mergeEntry (accumulatorWithDec acc) acc"

definition emptyAccumulators :: accumulators where
  "emptyAccumulators = \<lparr>accumulatorParam = [], accumulatorVar = [], accumulatorWithDec = []\<rparr>"

definition rangesByName ::
  "32 word list \<Rightarrow> legend \<Rightarrow> editor \<Rightarrow> bool \<Rightarrow> bool \<Rightarrow> error + (string, range list) jsMap" where
  "rangesByName data lg ed highlightGlobals highlightClasses =
     (case decodeLoop ed lg highlightGlobals highlightClasses data 0 0 emptyAccumulators of
        Inl e \<Rightarrow> Inl e
      | Inr acc \<Rightarrow> Inr (accumulatorVar (reconcile (forceDeclared ed acc))))"

section \<open>The decoded tokens\<close>

text \<open>
  The loop read as two stages, for stating properties: the tokens it decodes, with the
  position, text, kind and modifiers it computes for each (lines 74-81), and what each token
  does to the accumulators. Lemma \<open>decodeLoop_tokens\<close> shows that the loop is the
  composition of the two. A truncated record with a \<^verbatim>\<open>NaN\<close> range yields no token:
  it has no kind and is never classified.
\<close>

record token =
  tokRange :: range
  tokName :: string
  tokKind :: "string option"
  tokModifiers :: "string list"

fun decodeTokens :: "editor \<Rightarrow> legend \<Rightarrow> 32 word list \<Rightarrow> nat \<Rightarrow> nat \<Rightarrow> error + token list" where
  "decodeTokens ed lg (deltaLine # deltaColumn # len # kindIndex # modifierIndex # rest)
       line column =
     (case advance line column deltaLine deltaColumn of (line', column') \<Rightarrow>
        (case getText ed (tokenRange line' column' len) of
           None \<Rightarrow> Inl SourceUnavailable
         | Some name \<Rightarrow>
             (case decodeTokens ed lg rest line' column' of
                Inl e \<Rightarrow> Inl e
              | Inr toks \<Rightarrow>
                  Inr (\<lparr>tokRange = tokenRange line' column' len, tokName = name,
                        tokKind = lookup (tokenTypes lg) (unat kindIndex),
                        tokModifiers = modifiersOf lg (Some modifierIndex)\<rparr> # toks))))"
| "decodeTokens ed lg [] line column = Inr []"
| "decodeTokens ed lg [deltaLine, deltaColumn, len, kindIndex] line column =
     (case advance line column deltaLine deltaColumn of (line', column') \<Rightarrow>
        (case getText ed (tokenRange line' column' len) of
           None \<Rightarrow> Inl SourceUnavailable
         | Some name \<Rightarrow>
             Inr [\<lparr>tokRange = tokenRange line' column' len, tokName = name,
                   tokKind = lookup (tokenTypes lg) (unat kindIndex),
                   tokModifiers = modifiersOf lg None\<rparr>]))"
| "decodeTokens ed lg [deltaLine, deltaColumn, len] line column =
     (case advance line column deltaLine deltaColumn of (line', column') \<Rightarrow>
        (case getText ed (tokenRange line' column' len) of
           None \<Rightarrow> Inl SourceUnavailable
         | Some name \<Rightarrow>
             Inr [\<lparr>tokRange = tokenRange line' column' len, tokName = name,
                   tokKind = None, tokModifiers = modifiersOf lg None\<rparr>]))"
| "decodeTokens ed lg [deltaLine, deltaColumn] line column =
     (case advance line column deltaLine deltaColumn of (line', column') \<Rightarrow>
        (case getTextNaN ed line' (Some column') of
           None \<Rightarrow> Inl SourceUnavailable
         | Some name \<Rightarrow> Inr []))"
| "decodeTokens ed lg [deltaLine] line column =
     (case getTextNaN ed (line + unat deltaLine) None of
        None \<Rightarrow> Inl SourceUnavailable
      | Some name \<Rightarrow> Inr [])"

definition classifyToken :: "bool \<Rightarrow> bool \<Rightarrow> token \<Rightarrow> accumulators \<Rightarrow> accumulators" where
  "classifyToken hg hc tok acc =
     classify hg hc (tokRange tok) (tokName tok) (tokKind tok) (tokModifiers tok) acc"

text \<open>The ranges of the records of a stream, from the positions alone.\<close>

fun tokenRanges :: "32 word list \<Rightarrow> nat \<Rightarrow> nat \<Rightarrow> range list" where
  "tokenRanges (deltaLine # deltaColumn # len # kindIndex # modifierIndex # rest) line column =
     (case advance line column deltaLine deltaColumn of (line', column') \<Rightarrow>
        tokenRange line' column' len # tokenRanges rest line' column')"
| "tokenRanges [] line column = []"
| "tokenRanges [deltaLine, deltaColumn, len, kindIndex] line column =
     (case advance line column deltaLine deltaColumn of (line', column') \<Rightarrow>
        [tokenRange line' column' len])"
| "tokenRanges [deltaLine, deltaColumn, len] line column =
     (case advance line column deltaLine deltaColumn of (line', column') \<Rightarrow>
        [tokenRange line' column' len])"
| "tokenRanges [deltaLine, deltaColumn] line column = []"
| "tokenRanges [deltaLine] line column = []"

subsection \<open>The classes of a token\<close>

text \<open>The condition of line 82.\<close>

definition included :: "bool \<Rightarrow> token \<Rightarrow> bool" where
  "included hg tok =
     (hg \<or> (''global'' \<notin> set (tokModifiers tok) \<and> length (tokName tok) > 2))"

text \<open>The tokens whose range is pushed onto \<^verbatim>\<open>accumulatorVar\<close> (lines 83 and 109).\<close>

definition variableClassified :: "bool \<Rightarrow> bool \<Rightarrow> token \<Rightarrow> bool" where
  "variableClassified hg hc tok =
     ((included hg tok \<and> tokKind tok = Some ''variable'') \<or> (hc \<and> tokKind tok = Some ''class''))"

text \<open>The tokens whose range is pushed onto \<^verbatim>\<open>accumulatorParam\<close> (line 90).\<close>

definition parameterClassified :: "bool \<Rightarrow> token \<Rightarrow> bool" where
  "parameterClassified hg tok =
     (included hg tok \<and> tokKind tok = Some ''parameter'' \<and> ''label'' \<notin> set (tokModifiers tok))"

definition variableRanges :: "bool \<Rightarrow> bool \<Rightarrow> token list \<Rightarrow> string \<Rightarrow> range list" where
  "variableRanges hg hc toks name =
     map tokRange (filter (\<lambda>t. tokName t = name \<and> variableClassified hg hc t) toks)"

definition parameterRanges :: "bool \<Rightarrow> token list \<Rightarrow> string \<Rightarrow> range list" where
  "parameterRanges hg toks name =
     map tokRange (filter (\<lambda>t. tokName t = name \<and> parameterClassified hg t) toks)"

definition declared :: "bool \<Rightarrow> token list \<Rightarrow> string \<Rightarrow> bool" where
  "declared hg toks name =
     list_ex (\<lambda>t. tokName t = name \<and> parameterClassified hg t
                  \<and> ''declaration'' \<in> set (tokModifiers t)) toks"

text \<open>The keys of a map, and the append of lines 84-88 on a looked-up entry.\<close>

definition keys :: "('k, 'v) jsMap \<Rightarrow> 'k set" where
  "keys m = set (map fst m)"

definition extend :: "range list option \<Rightarrow> range list \<Rightarrow> range list option" where
  "extend entry rs =
     (if rs = [] then entry
      else Some ((case entry of None \<Rightarrow> [] | Some xs \<Rightarrow> xs) @ rs))"

text \<open>
  What the returned map holds under a name, in terms of the decoded tokens: the
  variable-classified ranges, followed by the parameter-classified ranges when the name is kept
  (declared, or any at all for \<^verbatim>\<open>cpp\<close>); no entry when there is no range.
\<close>

definition finalRanges :: "bool \<Rightarrow> bool \<Rightarrow> bool \<Rightarrow> token list \<Rightarrow> string \<Rightarrow> range list option" where
  "finalRanges cpp hg hc toks name =
     (if parameterRanges hg toks name \<noteq> [] \<and> (cpp \<or> declared hg toks name)
      then Some (variableRanges hg hc toks name @ parameterRanges hg toks name)
      else extend None (variableRanges hg hc toks name))"

text \<open>The merge of lines 126-136 on the looked-up entries of one name.\<close>

definition merged :: "bool option \<Rightarrow> range list option \<Rightarrow> range list option \<Rightarrow> range list option" where
  "merged flag ps vs =
     (case flag of
        Some True \<Rightarrow>
          (case ps of
             None \<Rightarrow> vs
           | Some p \<Rightarrow> Some ((case vs of None \<Rightarrow> [] | Some v \<Rightarrow> v) @ p))
      | _ \<Rightarrow> vs)"

text \<open>The invariant of the loop: a name with parameter ranges has a declaration flag.\<close>

definition keysInv :: "accumulators \<Rightarrow> bool" where
  "keysInv acc = (keys (accumulatorParam acc) \<subseteq> keys (accumulatorWithDec acc))"

subsection \<open>Example editors\<close>

text \<open>
  An editor over a document given by its lines, whose text accessor never fails (outside the
  document the text is empty), and an editor whose accessor fails from line \<open>k\<close> on.
\<close>

definition documentEditor :: "string list \<Rightarrow> string \<Rightarrow> editor" where
  "documentEditor doc lang =
     \<lparr>getText = (\<lambda>r. case lookup doc (startLine r) of
                        None \<Rightarrow> Some []
                      | Some l \<Rightarrow>
                          Some (take (endCharacter r - startCharacter r)
                                  (drop (startCharacter r) l))),
      getTextNaN = (\<lambda>line column. Some []),
      languageId = lang\<rparr>"

definition closedAfter :: "nat \<Rightarrow> string list \<Rightarrow> string \<Rightarrow> editor" where
  "closedAfter k doc lang =
     \<lparr>getText = (\<lambda>r. if startLine r < k then getText (documentEditor doc lang) r else None),
      getTextNaN = (\<lambda>line column. None),
      languageId = lang\<rparr>"

section \<open>Maps\<close>

lemma mapGet_mapSet: "mapGet (mapSet k v m) k' = (if k' = k then Some v else mapGet m k')"
  by (induction m) (auto simp: mapGet_def)

lemma map_fst_mapSet:
  "map fst (mapSet k v m) = (if k \<in> keys m then map fst m else map fst m @ [k])"
  unfolding keys_def by (induction m) (auto simp: rev_image_eqI)

lemma keys_mapSet: "keys (mapSet k v m) = insert k (keys m)"
  by (auto simp: keys_def map_fst_mapSet)

lemma distinct_mapSet: "distinct (map fst m) \<Longrightarrow> distinct (map fst (mapSet k v m))"
  by (simp add: map_fst_mapSet keys_def)

lemma mapGet_mapDelete: "mapGet (mapDelete k m) k' = (if k' = k then None else mapGet m k')"
  by (induction m) (auto simp: mapGet_def mapDelete_def)

lemma keys_mapDelete: "keys (mapDelete k m) = keys m - {k}"
  by (auto simp: keys_def mapDelete_def)

lemma mapGet_None_iff: "mapGet m k = None \<longleftrightarrow> k \<notin> keys m"
  by (simp add: mapGet_def keys_def map_of_eq_None_iff)

lemma mapHas_iff: "mapHas m k \<longleftrightarrow> k \<in> keys m"
  by (simp add: mapHas_def mapGet_None_iff)

lemma mapGet_pushRange:
  "mapGet (pushRange name r m) n =
     (if n = name then extend (mapGet m name) [r] else mapGet m n)"
  by (auto simp: pushRange_def mapGet_mapSet extend_def split: option.splits)

lemma keys_pushRange: "keys (pushRange name r m) = insert name (keys m)"
  by (auto simp: pushRange_def keys_mapSet split: option.splits)

lemma distinct_pushRange: "distinct (map fst m) \<Longrightarrow> distinct (map fst (pushRange name r m))"
  by (auto simp: pushRange_def distinct_mapSet split: option.splits)

lemma extend_Nil [simp]: "extend e [] = e"
  by (simp add: extend_def)

lemma extend_extend: "extend (extend e xs) ys = extend e (xs @ ys)"
  by (auto simp: extend_def split: option.splits)

section \<open>One token\<close>

lemma classifyToken_var:
  "mapGet (accumulatorVar (classifyToken hg hc t acc)) n =
     extend (mapGet (accumulatorVar acc) n) (variableRanges hg hc [t] n)"
  by (auto simp: classifyToken_def classify_def Let_def mapGet_pushRange variableRanges_def
      variableClassified_def included_def)

lemma classifyToken_param:
  "mapGet (accumulatorParam (classifyToken hg hc t acc)) n =
     extend (mapGet (accumulatorParam acc) n) (parameterRanges hg [t] n)"
  by (auto simp: classifyToken_def classify_def Let_def mapGet_pushRange parameterRanges_def
      parameterClassified_def included_def)

lemma classifyToken_withDec:
  "mapGet (accumulatorWithDec (classifyToken hg hc t acc)) n =
     (if parameterRanges hg [t] n = [] then mapGet (accumulatorWithDec acc) n
      else Some (mapGet (accumulatorWithDec acc) n = Some True \<or> declared hg [t] n))"
  by (auto simp: classifyToken_def classify_def Let_def mapGet_mapSet parameterRanges_def
      parameterClassified_def included_def declared_def mapHas_def)

section \<open>The loop over the tokens\<close>

lemma variableRanges_Cons:
  "variableRanges hg hc (t # ts) n = variableRanges hg hc [t] n @ variableRanges hg hc ts n"
  by (simp add: variableRanges_def)

lemma parameterRanges_Cons:
  "parameterRanges hg (t # ts) n = parameterRanges hg [t] n @ parameterRanges hg ts n"
  by (simp add: parameterRanges_def)

lemma declared_Cons: "declared hg (t # ts) n \<longleftrightarrow> declared hg [t] n \<or> declared hg ts n"
  by (auto simp: declared_def)

lemma declared_parameterRanges: "declared hg ts n \<Longrightarrow> parameterRanges hg ts n \<noteq> []"
  by (auto simp: declared_def parameterRanges_def list_ex_iff filter_empty_conv)

lemma fold_classify_var:
  "mapGet (accumulatorVar (fold (classifyToken hg hc) ts acc)) n =
     extend (mapGet (accumulatorVar acc) n) (variableRanges hg hc ts n)"
proof (induction ts arbitrary: acc)
  case Nil
  show ?case by (simp add: variableRanges_def)
next
  case (Cons t ts)
  show ?case
    by (simp add: Cons.IH classifyToken_var extend_extend variableRanges_Cons [of _ _ t ts])
qed

lemma fold_classify_param:
  "mapGet (accumulatorParam (fold (classifyToken hg hc) ts acc)) n =
     extend (mapGet (accumulatorParam acc) n) (parameterRanges hg ts n)"
proof (induction ts arbitrary: acc)
  case Nil
  show ?case by (simp add: parameterRanges_def)
next
  case (Cons t ts)
  show ?case
    by (simp add: Cons.IH classifyToken_param extend_extend parameterRanges_Cons [of _ t ts])
qed

lemma fold_classify_withDec:
  "mapGet (accumulatorWithDec (fold (classifyToken hg hc) ts acc)) n =
     (if parameterRanges hg ts n = [] then mapGet (accumulatorWithDec acc) n
      else Some (mapGet (accumulatorWithDec acc) n = Some True \<or> declared hg ts n))"
proof (induction ts arbitrary: acc)
  case Nil
  show ?case by (simp add: parameterRanges_def)
next
  case (Cons t ts)
  have d: "declared hg [t] n \<Longrightarrow> parameterRanges hg [t] n \<noteq> []"
    and d': "declared hg ts n \<Longrightarrow> parameterRanges hg ts n \<noteq> []"
    by (erule declared_parameterRanges)+
  show ?case
    using d d'
    by (auto simp add: Cons.IH classifyToken_withDec parameterRanges_Cons [of _ t ts]
        declared_Cons [of _ t ts])
qed

lemma classifyToken_distinct:
  assumes "distinct (map fst (accumulatorWithDec acc))"
  shows "distinct (map fst (accumulatorWithDec (classifyToken hg hc t acc)))"
  using assms
  by (auto simp: classifyToken_def classify_def Let_def distinct_mapSet)

lemma fold_classify_distinct:
  "distinct (map fst (accumulatorWithDec acc)) \<Longrightarrow>
   distinct (map fst (accumulatorWithDec (fold (classifyToken hg hc) ts acc)))"
  by (induction ts arbitrary: acc) (simp_all add: classifyToken_distinct)

lemma decodeLoop_tokens:
  "decodeLoop ed lg hg hc data line column acc =
     (case decodeTokens ed lg data line column of
        Inl e \<Rightarrow> Inl e
      | Inr toks \<Rightarrow> Inr (fold (classifyToken hg hc) toks acc))"
proof (induction ed lg hg hc data line column acc rule: decodeLoop.induct)
  case (1 ed lg hg hc deltaLine deltaColumn len kindIndex modifierIndex rest line column acc)
  then show ?case
    by (auto simp: classifyToken_def split: prod.splits option.splits sum.splits)
qed (auto simp: classifyToken_def classify_def split: prod.splits option.splits)

section \<open>The last two loops and the result\<close>

lemma fold_setTrue_get:
  "mapGet (fold (\<lambda>entry d. mapSet (fst entry) True d) es d) n =
     (if n \<in> keys es then Some True else mapGet d n)"
  by (induction es arbitrary: d) (auto simp: keys_def mapGet_mapSet)

lemma fold_setTrue_keys:
  "keys es \<subseteq> keys d \<Longrightarrow>
   map fst (fold (\<lambda>entry d. mapSet (fst entry) True d) es d) = map fst d"
proof (induction es arbitrary: d)
  case Nil
  show ?case by simp
next
  case (Cons e es)
  from Cons.prems have "fst e \<in> keys d" and "keys es \<subseteq> keys d"
    by (auto simp: keys_def)
  then have "map fst (mapSet (fst e) True d) = map fst d"
    and "keys es \<subseteq> keys (mapSet (fst e) True d)"
    by (auto simp: map_fst_mapSet keys_mapSet)
  then show ?case using Cons.IH [of "mapSet (fst e) True d"] by simp
qed

lemma forceDeclared_withDec:
  "mapGet (accumulatorWithDec (forceDeclared ed acc)) n =
     (if languageId ed = ''cpp'' then map_option (\<lambda>_. True) (mapGet (accumulatorWithDec acc) n)
      else mapGet (accumulatorWithDec acc) n)"
proof -
  have "n \<in> keys (accumulatorWithDec acc) \<longleftrightarrow> mapGet (accumulatorWithDec acc) n \<noteq> None"
    by (simp add: mapGet_None_iff)
  then show ?thesis
    by (cases "mapGet (accumulatorWithDec acc) n") (auto simp: forceDeclared_def fold_setTrue_get)
qed

lemma forceDeclared_keys:
  "map fst (accumulatorWithDec (forceDeclared ed acc)) = map fst (accumulatorWithDec acc)"
  by (simp add: forceDeclared_def fold_setTrue_keys)

lemma forceDeclared_others [simp]:
  "accumulatorVar (forceDeclared ed acc) = accumulatorVar acc"
  "accumulatorParam (forceDeclared ed acc) = accumulatorParam acc"
  by (simp_all add: forceDeclared_def)

lemma mergeEntry_withDec [simp]:
  "accumulatorWithDec (mergeEntry e acc) = accumulatorWithDec acc"
  by (auto simp: mergeEntry_def split: prod.splits option.splits)

lemma mergeEntry_other:
  "n \<noteq> fst e \<Longrightarrow> mapGet (accumulatorVar (mergeEntry e acc)) n = mapGet (accumulatorVar acc) n"
  "n \<noteq> fst e \<Longrightarrow> mapGet (accumulatorParam (mergeEntry e acc)) n = mapGet (accumulatorParam acc) n"
  by (auto simp: mergeEntry_def mapGet_mapSet mapGet_mapDelete split: prod.splits option.splits)

lemma mergeEntry_same:
  "mapGet (accumulatorVar (mergeEntry (k, b) acc)) k =
     merged (Some b) (mapGet (accumulatorParam acc) k) (mapGet (accumulatorVar acc) k)"
  by (auto simp: mergeEntry_def merged_def mapGet_mapSet split: option.splits)

lemma mapGet_Cons: "mapGet ((k, v) # m) n = (if n = k then Some v else mapGet m n)"
  by (simp add: mapGet_def)

lemma fold_mergeEntry_var:
  "distinct (map fst es) \<Longrightarrow>
   mapGet (accumulatorVar (fold mergeEntry es acc)) n =
     merged (mapGet es n) (mapGet (accumulatorParam acc) n) (mapGet (accumulatorVar acc) n)"
proof (induction es arbitrary: acc)
  case Nil
  show ?case by (simp add: merged_def mapGet_def)
next
  case (Cons e es)
  obtain k b where e: "e = (k, b)" by (cases e)
  from Cons.prems have dist: "distinct (map fst es)" and notin: "k \<notin> keys es"
    by (auto simp: e keys_def)
  have IH: "mapGet (accumulatorVar (fold mergeEntry es (mergeEntry e acc))) n =
     merged (mapGet es n) (mapGet (accumulatorParam (mergeEntry e acc)) n)
       (mapGet (accumulatorVar (mergeEntry e acc)) n)"
    by (rule Cons.IH [OF dist])
  show ?case
  proof (cases "n = k")
    case True
    with notin have "mapGet es n = None" by (simp add: mapGet_None_iff)
    then show ?thesis
      using IH True by (simp add: e mergeEntry_same mapGet_Cons) (simp add: merged_def)
  next
    case False
    then show ?thesis
      using IH by (simp add: e mergeEntry_other mapGet_Cons)
  qed
qed

lemma reconcile_var:
  "distinct (map fst (accumulatorWithDec acc)) \<Longrightarrow>
   mapGet (accumulatorVar (reconcile acc)) n =
     merged (mapGet (accumulatorWithDec acc) n) (mapGet (accumulatorParam acc) n)
       (mapGet (accumulatorVar acc) n)"
  by (simp add: reconcile_def fold_mergeEntry_var)

lemma mapGet_empty [simp]:
  "mapGet (accumulatorVar emptyAccumulators) n = None"
  "mapGet (accumulatorParam emptyAccumulators) n = None"
  "mapGet (accumulatorWithDec emptyAccumulators) n = None"
  by (simp_all add: emptyAccumulators_def mapGet_def)

lemma rangesByName_tokens:
  assumes "decodeTokens ed lg data 0 0 = Inr toks"
  shows "\<exists>m. rangesByName data lg ed hg hc = Inr m \<and>
           (\<forall>n. mapGet m n = finalRanges (languageId ed = ''cpp'') hg hc toks n)"
proof -
  let ?acc = "fold (classifyToken hg hc) toks emptyAccumulators"
  have loop: "decodeLoop ed lg hg hc data 0 0 emptyAccumulators = Inr ?acc"
    by (simp add: decodeLoop_tokens assms)
  have dist: "distinct (map fst (accumulatorWithDec (forceDeclared ed ?acc)))"
    by (simp add: forceDeclared_keys fold_classify_distinct emptyAccumulators_def)
  have "mapGet (accumulatorVar (reconcile (forceDeclared ed ?acc))) n =
      finalRanges (languageId ed = ''cpp'') hg hc toks n" for n
    using declared_parameterRanges [of hg toks n]
    by (auto simp: reconcile_var [OF dist] forceDeclared_withDec fold_classify_withDec
        fold_classify_param fold_classify_var merged_def finalRanges_def extend_def
        split: option.splits bool.splits)
  then show ?thesis
    by (simp add: rangesByName_def loop)
qed

section \<open>Resolution and membership\<close>

lemma decodeTokens_ranges:
  "decodeTokens ed lg data line column = Inr toks \<Longrightarrow>
   map tokRange toks = tokenRanges data line column"
  by (induction data line column arbitrary: toks rule: tokenRanges.induct)
    (auto split: prod.splits option.splits sum.splits)

lemma decodeTokens_fails:
  "r \<in> set (tokenRanges data line column) \<Longrightarrow> getText ed r = None \<Longrightarrow>
   decodeTokens ed lg data line column = Inl SourceUnavailable"
proof (induction data line column rule: tokenRanges.induct)
  case (1 deltaLine deltaColumn len kindIndex modifierIndex rest line column)
  then show ?case
    by (auto split: prod.splits option.splits sum.splits)
qed (auto split: prod.splits option.splits)

lemma rangesByName_fails:
  "decodeTokens ed lg data 0 0 = Inl e \<Longrightarrow> rangesByName data lg ed hg hc = Inl e"
  by (simp add: rangesByName_def decodeLoop_tokens)

lemma finalRanges_variable:
  "r \<in> set (variableRanges hg hc toks n) \<Longrightarrow>
   \<exists>rs. finalRanges cpp hg hc toks n = Some rs \<and> r \<in> set rs"
  by (auto simp: finalRanges_def extend_def)

lemma finalRanges_parameter:
  "r \<in> set (parameterRanges hg toks n) \<Longrightarrow> cpp \<or> declared hg toks n \<Longrightarrow>
   \<exists>rs. finalRanges cpp hg hc toks n = Some rs \<and> r \<in> set rs"
  by (auto simp: finalRanges_def extend_def)

lemma variableRanges_mem:
  "t \<in> set toks \<Longrightarrow> variableClassified hg hc t \<Longrightarrow>
   tokRange t \<in> set (variableRanges hg hc toks (tokName t))"
  by (auto simp: variableRanges_def)

lemma parameterRanges_mem:
  "t \<in> set toks \<Longrightarrow> parameterClassified hg t \<Longrightarrow>
   tokRange t \<in> set (parameterRanges hg toks (tokName t))"
  by (auto simp: parameterRanges_def)

lemma variableRanges_empty:
  "(\<And>t. t \<in> set toks \<Longrightarrow> tokName t = n \<Longrightarrow> \<not> variableClassified hg hc t) \<Longrightarrow>
   variableRanges hg hc toks n = []"
  by (auto simp: variableRanges_def filter_empty_conv)

lemma parameterRanges_empty:
  "(\<And>t. t \<in> set toks \<Longrightarrow> tokName t = n \<Longrightarrow> \<not> parameterClassified hg t) \<Longrightarrow>
   parameterRanges hg toks n = []"
  by (auto simp: parameterRanges_def filter_empty_conv)

lemma finalRanges_None:
  "variableRanges hg hc toks n = [] \<Longrightarrow>
   parameterRanges hg toks n = [] \<or> (\<not> cpp \<and> \<not> declared hg toks n) \<Longrightarrow>
   finalRanges cpp hg hc toks n = None"
  by (auto simp: finalRanges_def)

text \<open>The definitions that evaluate the function on an example.\<close>

lemmas example_defs =
  rangesByName_def advance_def tokenRange_def documentEditor_def closedAfter_def lookup_def
  Range_def modifiersOf_def modifierSet_def classify_def emptyAccumulators_def pushRange_def
  mapGet_def mapHas_def mapDelete_def forceDeclared_def reconcile_def mergeEntry_def

section \<open>The invariant of the accumulators\<close>

lemma classify_keysInv: "keysInv acc \<Longrightarrow> keysInv (classify hg hc r name kind modifiers acc)"
  by (auto simp: keysInv_def classify_def Let_def keys_pushRange keys_mapSet mapHas_iff)

lemma fold_classify_keysInv:
  "keysInv acc \<Longrightarrow> keysInv (fold (classifyToken hg hc) toks acc)"
  by (induction toks arbitrary: acc) (simp_all add: classifyToken_def classify_keysInv)

text \<open>
  After the loop the two maps have the same names, so \<^verbatim>\<open>accumulatorParam.get(name)\<close>
  is defined for every name the last loop visits: a round changes the entry of its own name
  only (\<open>mergeEntry_other\<close>), and the names of the declaration map are distinct.
\<close>

lemma decodeLoop_keys:
  assumes "decodeLoop ed lg hg hc data 0 0 emptyAccumulators = Inr acc"
  shows "keys (accumulatorWithDec acc) = keys (accumulatorParam acc)"
proof -
  from assms obtain toks where acc: "acc = fold (classifyToken hg hc) toks emptyAccumulators"
    by (auto simp: decodeLoop_tokens split: sum.splits)
  have "mapGet (accumulatorWithDec acc) n = None \<longleftrightarrow> mapGet (accumulatorParam acc) n = None"
    for n
    by (simp add: acc fold_classify_withDec fold_classify_param extend_def)
  then show ?thesis
    by (auto simp: mapGet_None_iff)
qed

lemma forceDeclared_param_defined:
  assumes "decodeLoop ed lg hg hc data 0 0 emptyAccumulators = Inr acc"
    and "(name, isDeclared) \<in> set (accumulatorWithDec (forceDeclared ed acc))"
  shows "mapGet (accumulatorParam (forceDeclared ed acc)) name \<noteq> None"
proof -
  from assms(2) have "name \<in> set (map fst (accumulatorWithDec (forceDeclared ed acc)))"
    by force
  then have "name \<in> keys (accumulatorWithDec acc)"
    by (simp add: forceDeclared_keys keys_def)
  with decodeLoop_keys [OF assms(1)] show ?thesis
    by (simp add: mapGet_None_iff)
qed

section \<open>Properties of the specification\<close>

text \<open>
  C1. On the stream \<^verbatim>\<open>[2,5,3,0,3, 0,5,4,1,0, 3,2,7,2,0]\<close> with the kinds
  \<^verbatim>\<open>property\<close>, \<^verbatim>\<open>type\<close>, \<^verbatim>\<open>class\<close> and the modifiers \<^verbatim>\<open>private\<close>, \<^verbatim>\<open>static\<close>,
  the loop asks for the text of exactly the ranges (2,5)-(2,8), (2,10)-(2,14) and (5,2)-(5,9),
  in this order, and classifies each token at its range. In general a token with
  deltaLine 0 starts deltaColumn after the start column of the token before it, and a token with
  deltaLine above 0 starts at column deltaColumn of its line.
\<close>

theorem delta_decode_example:
  "(decodeLoop ed \<lparr>tokenTypes = [''property'', ''type'', ''class''],
                   tokenModifiers = [''private'', ''static'']\<rparr> hg hc
       [2, 5, 3, 0, 3,  0, 5, 4, 1, 0,  3, 2, 7, 2, 0] 0 0 acc =
     (case getText ed (Range 2 5 2 8) of
        None \<Rightarrow> Inl SourceUnavailable
      | Some name1 \<Rightarrow>
          (case getText ed (Range 2 10 2 14) of
             None \<Rightarrow> Inl SourceUnavailable
           | Some name2 \<Rightarrow>
               (case getText ed (Range 5 2 5 9) of
                  None \<Rightarrow> Inl SourceUnavailable
                | Some name3 \<Rightarrow>
                    Inr (classify hg hc (Range 5 2 5 9) name3 (Some ''class'') []
                          (classify hg hc (Range 2 10 2 14) name2 (Some ''type'') []
                            (classify hg hc (Range 2 5 2 8) name1 (Some ''property'')
                               [''private'', ''static''] acc))))))) \<and>
   (tokenRanges [2, 5, 3, 0, 3,  0, 5, 4, 1, 0,  3, 2, 7, 2, 0] 0 0 =
     [Range 2 5 2 8, Range 2 10 2 14, Range 5 2 5 9]) \<and>
   (advance line column deltaLine deltaColumn =
     (line + unat deltaLine, (if deltaLine = 0 then column else 0) + unat deltaColumn))"
  (is "?loop \<and> ?ranges \<and> ?step")
proof -
  have a: "advance 0 0 2 5 = (2, 5)" "advance 2 5 0 5 = (2, 10)" "advance 2 10 3 2 = (5, 2)"
    by (simp_all add: advance_def)
  have r: "tokenRange 2 5 3 = Range 2 5 2 8" "tokenRange 2 10 4 = Range 2 10 2 14"
    "tokenRange 5 2 7 = Range 5 2 5 9"
    by (simp_all add: tokenRange_def)
  have m: "modifiersOf \<lparr>tokenTypes = [''property'', ''type'', ''class''],
                   tokenModifiers = [''private'', ''static'']\<rparr> (Some 3) = [''private'', ''static'']"
    "modifiersOf \<lparr>tokenTypes = [''property'', ''type'', ''class''],
                   tokenModifiers = [''private'', ''static'']\<rparr> (Some 0) = []"
    by (simp_all add: modifiersOf_def modifierSet_def)
  have loop: ?loop
    by (cases "getText ed (Range 2 5 2 8)"; cases "getText ed (Range 2 10 2 14)";
        cases "getText ed (Range 5 2 5 9)") (simp_all add: a r m lookup_def)
  have ranges: ?ranges
    by (simp add: a r)
  have step: ?step
    by (simp add: advance_def)
  from loop ranges step show ?thesis by blast
qed

text \<open>
  The example on a document that has its three names at these places: with classes
  highlighted the result is the range of the class.
\<close>

theorem delta_decode_example_witness:
  "rangesByName [2, 5, 3, 0, 3,  0, 5, 4, 1, 0,  3, 2, 7, 2, 0]
       \<lparr>tokenTypes = [''property'', ''type'', ''class''],
        tokenModifiers = [''private'', ''static'']\<rparr>
       (documentEditor ['''', '''', ''     foo  bars'', '''', '''', ''  Myclass''] ''python'')
       False True =
     Inr [(''Myclass'', [Range 5 2 5 9])] \<and>
   advance 2 5 0 5 = (2, 10) \<and> advance 2 10 3 2 = (5, 2)"
proof -
  let ?ed = "documentEditor ['''', '''', ''     foo  bars'', '''', '''', ''  Myclass''] ''python''"
  have t: "getText ?ed (Range 2 5 2 8) = Some ''foo''" "getText ?ed (Range 2 10 2 14) = Some ''bars''"
    "getText ?ed (Range 5 2 5 9) = Some ''Myclass''"
    by (simp_all add: documentEditor_def Range_def lookup_def)
  have l: "languageId ?ed = ''python''" by (simp add: documentEditor_def)
  show ?thesis
    using delta_decode_example [of ?ed False True emptyAccumulators 2 5 0 5]
      delta_decode_example [of ?ed False True emptyAccumulators 2 10 3 2]
    by (simp add: t l rangesByName_def classify_def emptyAccumulators_def pushRange_def
        mapGet_def forceDeclared_def reconcile_def)
qed

text \<open>
  C2, as stated, fails: with \<^verbatim>\<open>highlightGlobals\<close> false a variable-kind token whose
  name has three characters and whose modifiers include \<^verbatim>\<open>global\<close> is not in the returned
  mapping. The condition of line 82 asks for a name without \<^verbatim>\<open>global\<close> and, as well, of
  more than two characters.
\<close>

theorem global_length3_counterexample:
  "decodeTokens (documentEditor [''abc = 1''] ''python'')
       \<lparr>tokenTypes = [''variable''], tokenModifiers = [''global'']\<rparr> [0, 0, 3, 0, 1] 0 0 =
     Inr [\<lparr>tokRange = Range 0 0 0 3, tokName = ''abc'', tokKind = Some ''variable'',
           tokModifiers = [''global'']\<rparr>] \<and>
   length ''abc'' = 3 \<and>
   rangesByName [0, 0, 3, 0, 1] \<lparr>tokenTypes = [''variable''], tokenModifiers = [''global'']\<rparr>
       (documentEditor [''abc = 1''] ''python'') False False = Inr []"
  by (simp add: example_defs)

text \<open>
  C2, amended. When \<^verbatim>\<open>highlightGlobals\<close> is false, a variable-kind token whose modifiers
  include \<^verbatim>\<open>global\<close> is not classified, whatever the length of its name: a name all of
  whose tokens are variable-kind tokens that carry \<^verbatim>\<open>global\<close> or have at most two characters
  is absent from the returned mapping. A variable-kind token whose name has three characters
  is in the returned mapping when its modifiers do not include \<^verbatim>\<open>global\<close>.
\<close>

theorem global_suppression:
  assumes "decodeTokens ed lg data 0 0 = Inr toks"
  shows "\<exists>m. rangesByName data lg ed False hc = Inr m \<and>
      ((\<forall>t\<in>set toks. tokName t = n \<longrightarrow>
            tokKind t = Some ''variable'' \<and>
            (''global'' \<in> set (tokModifiers t) \<or> length n \<le> 2)) \<longrightarrow>
         mapGet m n = None) \<and>
      (\<forall>t\<in>set toks.
         tokKind t = Some ''variable'' \<and> ''global'' \<notin> set (tokModifiers t) \<and>
         length (tokName t) = 3 \<longrightarrow>
         (\<exists>rs. mapGet m (tokName t) = Some rs \<and> tokRange t \<in> set rs)) \<and>
      (''global'' \<in> set modifiers \<longrightarrow>
         classify False hc r name (Some ''variable'') modifiers acc = acc)"
proof -
  from rangesByName_tokens [OF assms, of False hc] obtain m
    where m: "rangesByName data lg ed False hc = Inr m"
      and get: "\<And>n. mapGet m n = finalRanges (languageId ed = ''cpp'') False hc toks n"
    by blast
  have absent: "mapGet m n = None"
    if h: "\<forall>t\<in>set toks. tokName t = n \<longrightarrow>
            tokKind t = Some ''variable'' \<and>
            (''global'' \<in> set (tokModifiers t) \<or> length n \<le> 2)"
  proof -
    have "variableRanges False hc toks n = []"
      by (rule variableRanges_empty)
        (use h in \<open>auto simp: variableClassified_def included_def\<close>)
    moreover have "parameterRanges False toks n = []"
      by (rule parameterRanges_empty) (use h in \<open>auto simp: parameterClassified_def\<close>)
    ultimately show ?thesis
      by (simp add: get finalRanges_None)
  qed
  have present: "\<exists>rs. mapGet m (tokName t) = Some rs \<and> tokRange t \<in> set rs"
    if "t \<in> set toks" and "tokKind t = Some ''variable''"
      and "''global'' \<notin> set (tokModifiers t)" and "length (tokName t) = 3" for t
  proof -
    from that have "variableClassified False hc t"
      by (simp add: variableClassified_def included_def)
    with that(1) have "tokRange t \<in> set (variableRanges False hc toks (tokName t))"
      by (rule variableRanges_mem)
    then show ?thesis
      unfolding get by (rule finalRanges_variable)
  qed
  have frame: "classify False hc r name (Some ''variable'') modifiers acc = acc"
    if "''global'' \<in> set modifiers"
    using that by (simp add: classify_def)
  from m absent present frame show ?thesis
    by blast
qed

text \<open>
  The names \<^verbatim>\<open>ab\<close> and \<^verbatim>\<open>abc\<close>, both global, and the plain name \<^verbatim>\<open>xyz\<close>.
\<close>

theorem global_suppression_witness:
  "\<exists>m. rangesByName [0, 0, 2, 0, 1,  0, 3, 3, 0, 1,  0, 4, 3, 0, 0]
          \<lparr>tokenTypes = [''variable''], tokenModifiers = [''global'']\<rparr>
          (documentEditor [''ab abc xyz''] ''python'') False False = Inr m \<and>
        mapGet m ''ab'' = None \<and> mapGet m ''abc'' = None \<and>
        (\<exists>rs. mapGet m ''xyz'' = Some rs \<and> Range 0 7 0 10 \<in> set rs) \<and>
        classify False False (Range 0 3 0 6) ''abc'' (Some ''variable'') [''global'']
          emptyAccumulators = emptyAccumulators"
proof -
  let ?lg = "\<lparr>tokenTypes = [''variable''], tokenModifiers = [''global'']\<rparr>"
  let ?ed = "documentEditor [''ab abc xyz''] ''python''"
  let ?data = "[0, 0, 2, 0, 1,  0, 3, 3, 0, 1,  0, 4, 3, 0, 0] :: 32 word list"
  let ?t1 = "\<lparr>tokRange = Range 0 0 0 2, tokName = ''ab'', tokKind = Some ''variable'',
              tokModifiers = [''global'']\<rparr>"
  let ?t2 = "\<lparr>tokRange = Range 0 3 0 6, tokName = ''abc'', tokKind = Some ''variable'',
              tokModifiers = [''global'']\<rparr>"
  let ?t3 = "\<lparr>tokRange = Range 0 7 0 10, tokName = ''xyz'', tokKind = Some ''variable'',
              tokModifiers = []\<rparr>"
  have h: "decodeTokens ?ed ?lg ?data 0 0 = Inr [?t1, ?t2, ?t3]"
    by (simp add: example_defs)
  from global_suppression [OF h, where n = "''ab''" and hc = False and r = "Range 0 0 0 2"
      and name = "''ab''" and modifiers = "[''global'']" and acc = emptyAccumulators]
    global_suppression [OF h, where n = "''abc''" and hc = False and r = "Range 0 3 0 6"
      and name = "''abc''" and modifiers = "[''global'']" and acc = emptyAccumulators]
  show ?thesis
    by auto
qed

text \<open>
  C3, as stated, fails: a parameter-kind token that carries \<^verbatim>\<open>declaration\<close> and also
  \<^verbatim>\<open>label\<close> passes the condition of line 82 and is dropped at line 90, so its name is
  not in the returned mapping.
\<close>

theorem declared_label_counterexample:
  "decodeTokens (documentEditor [''abc''] ''python'')
       \<lparr>tokenTypes = [''parameter''], tokenModifiers = [''declaration'', ''label'']\<rparr>
       [0, 0, 3, 0, 3] 0 0 =
     Inr [\<lparr>tokRange = Range 0 0 0 3, tokName = ''abc'', tokKind = Some ''parameter'',
           tokModifiers = [''declaration'', ''label'']\<rparr>] \<and>
   rangesByName [0, 0, 3, 0, 3]
       \<lparr>tokenTypes = [''parameter''], tokenModifiers = [''declaration'', ''label'']\<rparr>
       (documentEditor [''abc''] ''python'') True False = Inr []"
  by (simp add: example_defs)

text \<open>
  C3, amended. When the language is not \<^verbatim>\<open>cpp\<close>: a parameter-kind token that passes
  the condition of line 82 and carries \<^verbatim>\<open>declaration\<close> and not \<^verbatim>\<open>label\<close> is in the
  returned mapping under its name; and a name none of whose tokens carries
  \<^verbatim>\<open>declaration\<close>, and that has no variable-classified token (variable kind or folded
  class), is absent from the returned mapping.
\<close>

theorem parameter_promotion:
  assumes "decodeTokens ed lg data 0 0 = Inr toks"
    and "languageId ed \<noteq> ''cpp''"
  shows "\<exists>m. rangesByName data lg ed hg hc = Inr m \<and>
      (\<forall>t\<in>set toks.
         tokKind t = Some ''parameter'' \<and> included hg t \<and>
         ''declaration'' \<in> set (tokModifiers t) \<and> ''label'' \<notin> set (tokModifiers t) \<longrightarrow>
         (\<exists>rs. mapGet m (tokName t) = Some rs \<and> tokRange t \<in> set rs)) \<and>
      ((\<forall>t\<in>set toks. tokName t = n \<longrightarrow>
            ''declaration'' \<notin> set (tokModifiers t) \<and> \<not> variableClassified hg hc t) \<longrightarrow>
         mapGet m n = None)"
proof -
  from rangesByName_tokens [OF assms(1), of hg hc] assms(2) obtain m
    where m: "rangesByName data lg ed hg hc = Inr m"
      and get: "\<And>n. mapGet m n = finalRanges False hg hc toks n"
    by auto
  have present: "\<exists>rs. mapGet m (tokName t) = Some rs \<and> tokRange t \<in> set rs"
    if "t \<in> set toks" and "tokKind t = Some ''parameter''" and "included hg t"
      and "''declaration'' \<in> set (tokModifiers t)" and "''label'' \<notin> set (tokModifiers t)" for t
  proof -
    from that have p: "parameterClassified hg t"
      by (simp add: parameterClassified_def)
    with that have "declared hg toks (tokName t)"
      by (auto simp: declared_def list_ex_iff)
    moreover from that(1) p have "tokRange t \<in> set (parameterRanges hg toks (tokName t))"
      by (rule parameterRanges_mem)
    ultimately show ?thesis
      unfolding get by (simp add: finalRanges_parameter)
  qed
  have absent: "mapGet m n = None"
    if h: "\<forall>t\<in>set toks. tokName t = n \<longrightarrow>
            ''declaration'' \<notin> set (tokModifiers t) \<and> \<not> variableClassified hg hc t"
  proof -
    have "variableRanges hg hc toks n = []"
      by (rule variableRanges_empty) (use h in auto)
    moreover have "\<not> declared hg toks n"
      using h by (auto simp: declared_def list_ex_iff)
    ultimately show ?thesis
      by (simp add: get finalRanges_None)
  qed
  from m present absent show ?thesis
    by blast
qed

text \<open>
  Two streams that differ in the \<^verbatim>\<open>declaration\<close> bit of the first token only.
\<close>

theorem parameter_promotion_witness:
  "(\<exists>m rs. rangesByName [0, 4, 3, 0, 1,  1, 2, 3, 0, 0]
          \<lparr>tokenTypes = [''parameter''], tokenModifiers = [''declaration'']\<rparr>
          (documentEditor [''f = abc =>'', ''  abc''] ''javascript'') False False = Inr m \<and>
        mapGet m ''abc'' = Some rs \<and> Range 0 4 0 7 \<in> set rs) \<and>
   (\<exists>m. rangesByName [0, 4, 3, 0, 0,  1, 2, 3, 0, 0]
          \<lparr>tokenTypes = [''parameter''], tokenModifiers = [''declaration'']\<rparr>
          (documentEditor [''f = abc =>'', ''  abc''] ''javascript'') False False = Inr m \<and>
        mapGet m ''abc'' = None)"
proof -
  let ?lg = "\<lparr>tokenTypes = [''parameter''], tokenModifiers = [''declaration'']\<rparr>"
  let ?ed = "documentEditor [''f = abc =>'', ''  abc''] ''javascript''"
  let ?t1 = "\<lparr>tokRange = Range 0 4 0 7, tokName = ''abc'', tokKind = Some ''parameter'',
              tokModifiers = [''declaration'']\<rparr>"
  let ?t1' = "\<lparr>tokRange = Range 0 4 0 7, tokName = ''abc'', tokKind = Some ''parameter'',
              tokModifiers = []\<rparr>"
  let ?t2 = "\<lparr>tokRange = Range 1 2 1 5, tokName = ''abc'', tokKind = Some ''parameter'',
              tokModifiers = []\<rparr>"
  have h1: "decodeTokens ?ed ?lg [0, 4, 3, 0, 1,  1, 2, 3, 0, 0] 0 0 = Inr [?t1, ?t2]"
    by (simp add: example_defs)
  have h2: "decodeTokens ?ed ?lg [0, 4, 3, 0, 0,  1, 2, 3, 0, 0] 0 0 = Inr [?t1', ?t2]"
    by (simp add: example_defs)
  have l: "languageId ?ed \<noteq> ''cpp''"
    by (simp add: documentEditor_def)
  from parameter_promotion [OF h1 l, where n = "''abc''" and hg = False and hc = False]
    parameter_promotion [OF h2 l, where n = "''abc''" and hg = False and hc = False]
  show ?thesis
    by (auto simp: included_def variableClassified_def)
qed

text \<open>
  C4. When the language is \<^verbatim>\<open>cpp\<close>, every entry of the declaration map is true after
  lines 120-124 (and the map has the same names), so a parameter-kind token that passes the
  condition of line 82 and does not carry \<^verbatim>\<open>label\<close> is in the returned mapping under its
  name, with or without a \<^verbatim>\<open>declaration\<close> on any token of that name.
\<close>

theorem cpp_override:
  assumes "languageId ed = ''cpp''"
  shows "mapGet (accumulatorWithDec (forceDeclared ed acc)) n =
           map_option (\<lambda>isDeclared. True) (mapGet (accumulatorWithDec acc) n) \<and>
         map fst (accumulatorWithDec (forceDeclared ed acc)) = map fst (accumulatorWithDec acc) \<and>
         (decodeTokens ed lg data 0 0 = Inr toks \<and> t \<in> set toks \<and>
          tokKind t = Some ''parameter'' \<and> included hg t \<and>
          ''label'' \<notin> set (tokModifiers t) \<longrightarrow>
          (\<exists>m rs. rangesByName data lg ed hg hc = Inr m \<and>
             mapGet m (tokName t) = Some rs \<and> tokRange t \<in> set rs))"
proof -
  have kept: "\<exists>m rs. rangesByName data lg ed hg hc = Inr m \<and>
             mapGet m (tokName t) = Some rs \<and> tokRange t \<in> set rs"
    if d: "decodeTokens ed lg data 0 0 = Inr toks" and t: "t \<in> set toks"
      and "tokKind t = Some ''parameter''" and "included hg t"
      and "''label'' \<notin> set (tokModifiers t)"
  proof -
    from that have "parameterClassified hg t"
      by (simp add: parameterClassified_def)
    with t have "tokRange t \<in> set (parameterRanges hg toks (tokName t))"
      by (rule parameterRanges_mem)
    then obtain rs where "finalRanges True hg hc toks (tokName t) = Some rs"
      and "tokRange t \<in> set rs"
      using finalRanges_parameter [of "tokRange t" hg toks "tokName t" True hc] by blast
    with rangesByName_tokens [OF d, of hg hc] assms show ?thesis
      by auto
  qed
  from kept show ?thesis
    by (simp add: forceDeclared_withDec forceDeclared_keys assms)
qed

text \<open>
  The second stream of the example for C3, now in a \<^verbatim>\<open>cpp\<close> document.
\<close>

theorem cpp_override_witness:
  "\<exists>m rs. rangesByName [0, 4, 3, 0, 0,  1, 2, 3, 0, 0]
          \<lparr>tokenTypes = [''parameter''], tokenModifiers = [''declaration'']\<rparr>
          (documentEditor [''f = abc =>'', ''  abc''] ''cpp'') False False = Inr m \<and>
        mapGet m ''abc'' = Some rs \<and> Range 0 4 0 7 \<in> set rs \<and>
        mapGet (accumulatorWithDec (forceDeclared (documentEditor [''f = abc =>'', ''  abc''] ''cpp'')
          \<lparr>accumulatorParam = [], accumulatorVar = [], accumulatorWithDec = [(''abc'', False)]\<rparr>))
          ''abc'' = Some True"
proof -
  let ?lg = "\<lparr>tokenTypes = [''parameter''], tokenModifiers = [''declaration'']\<rparr>"
  let ?ed = "documentEditor [''f = abc =>'', ''  abc''] ''cpp''"
  let ?t1 = "\<lparr>tokRange = Range 0 4 0 7, tokName = ''abc'', tokKind = Some ''parameter'',
              tokModifiers = []\<rparr>"
  let ?t2 = "\<lparr>tokRange = Range 1 2 1 5, tokName = ''abc'', tokKind = Some ''parameter'',
              tokModifiers = []\<rparr>"
  have h: "decodeTokens ?ed ?lg [0, 4, 3, 0, 0,  1, 2, 3, 0, 0] 0 0 = Inr [?t1, ?t2]"
    by (simp add: example_defs)
  have l: "languageId ?ed = ''cpp''"
    by (simp add: documentEditor_def)
  from cpp_override [OF l, where lg = ?lg and data = "[0, 4, 3, 0, 0,  1, 2, 3, 0, 0]"
      and toks = "[?t1, ?t2]" and t = ?t1 and hg = False and hc = False and n = "''abc''"
      and acc = "\<lparr>accumulatorParam = [], accumulatorVar = [], accumulatorWithDec = [(''abc'', False)]\<rparr>"] h
  show ?thesis
    by (auto simp: included_def mapGet_def)
qed

text \<open>
  C5. When \<^verbatim>\<open>highlightClasses\<close> is true, the range of every class-kind token is in the
  returned mapping under the token's name, whatever the condition of line 82 says: also for a
  name of at most two characters that carries the modifier \<^verbatim>\<open>global\<close> while
  \<^verbatim>\<open>highlightGlobals\<close> is false.
\<close>

theorem class_folding_bypasses_filter:
  assumes "decodeTokens ed lg data 0 0 = Inr toks"
    and "t \<in> set toks" and "tokKind t = Some ''class''"
  shows "\<exists>m rs. rangesByName data lg ed hg True = Inr m \<and>
           mapGet m (tokName t) = Some rs \<and> tokRange t \<in> set rs"
proof -
  from assms(3) have "variableClassified hg True t"
    by (simp add: variableClassified_def)
  with assms(2) have "tokRange t \<in> set (variableRanges hg True toks (tokName t))"
    by (rule variableRanges_mem)
  then obtain rs where "finalRanges (languageId ed = ''cpp'') hg True toks (tokName t) = Some rs"
    and "tokRange t \<in> set rs"
    using finalRanges_variable by blast
  with rangesByName_tokens [OF assms(1), of hg True] show ?thesis
    by auto
qed

text \<open>
  The class \<^verbatim>\<open>C\<close>, global and one character long, with globals switched off.
\<close>

theorem class_folding_bypasses_filter_witness:
  "decodeTokens (documentEditor [''C = 1''] ''python'')
       \<lparr>tokenTypes = [''class''], tokenModifiers = [''global'']\<rparr> [0, 0, 1, 0, 1] 0 0 =
     Inr [\<lparr>tokRange = Range 0 0 0 1, tokName = ''C'', tokKind = Some ''class'',
           tokModifiers = [''global'']\<rparr>] \<and>
   (\<exists>m rs. rangesByName [0, 0, 1, 0, 1] \<lparr>tokenTypes = [''class''], tokenModifiers = [''global'']\<rparr>
        (documentEditor [''C = 1''] ''python'') False True = Inr m \<and>
      mapGet m ''C'' = Some rs \<and> Range 0 0 0 1 \<in> set rs)"
proof -
  let ?t = "\<lparr>tokRange = Range 0 0 0 1, tokName = ''C'', tokKind = Some ''class'',
           tokModifiers = [''global'']\<rparr>"
  have h: "decodeTokens (documentEditor [''C = 1''] ''python'')
       \<lparr>tokenTypes = [''class''], tokenModifiers = [''global'']\<rparr> [0, 0, 1, 0, 1] 0 0 = Inr [?t]"
    by (simp add: example_defs)
  from class_folding_bypasses_filter [OF h, of ?t False] h show ?thesis
    by simp
qed

text \<open>
  C6. For a name with parameter-classified tokens that is kept (one of them carries
  \<^verbatim>\<open>declaration\<close>, or the language is \<^verbatim>\<open>cpp\<close>), the returned mapping holds the ranges
  of its variable-classified tokens in stream order, followed by the ranges of its
  parameter-classified tokens in stream order.
\<close>

theorem merge_ordering:
  assumes "decodeTokens ed lg data 0 0 = Inr toks"
    and "parameterRanges hg toks n \<noteq> []"
    and "declared hg toks n \<or> languageId ed = ''cpp''"
  shows "\<exists>m. rangesByName data lg ed hg hc = Inr m \<and>
           mapGet m n =
             Some (map tokRange (filter (\<lambda>t. tokName t = n \<and> variableClassified hg hc t) toks) @
                   map tokRange (filter (\<lambda>t. tokName t = n \<and> parameterClassified hg t) toks))"
  using rangesByName_tokens [OF assms(1), of hg hc] assms(2,3)
  by (auto simp: finalRanges_def variableRanges_def parameterRanges_def)

text \<open>
  A declared parameter, then a variable, then the parameter again: the variable's range
  comes first in the result.
\<close>

theorem merge_ordering_witness:
  "\<exists>m. rangesByName [0, 6, 3, 1, 1,  1, 2, 3, 0, 0,  0, 6, 3, 1, 0]
          \<lparr>tokenTypes = [''variable'', ''parameter''], tokenModifiers = [''declaration'']\<rparr>
          (documentEditor [''def f(bar):'', ''  bar = bar''] ''python'') False False = Inr m \<and>
        mapGet m ''bar'' = Some [Range 1 2 1 5, Range 0 6 0 9, Range 1 8 1 11]"
proof -
  let ?lg = "\<lparr>tokenTypes = [''variable'', ''parameter''], tokenModifiers = [''declaration'']\<rparr>"
  let ?ed = "documentEditor [''def f(bar):'', ''  bar = bar''] ''python''"
  let ?t1 = "\<lparr>tokRange = Range 0 6 0 9, tokName = ''bar'', tokKind = Some ''parameter'',
              tokModifiers = [''declaration'']\<rparr>"
  let ?t2 = "\<lparr>tokRange = Range 1 2 1 5, tokName = ''bar'', tokKind = Some ''variable'',
              tokModifiers = []\<rparr>"
  let ?t3 = "\<lparr>tokRange = Range 1 8 1 11, tokName = ''bar'', tokKind = Some ''parameter'',
              tokModifiers = []\<rparr>"
  have h: "decodeTokens ?ed ?lg [0, 6, 3, 1, 1,  1, 2, 3, 0, 0,  0, 6, 3, 1, 0] 0 0 =
      Inr [?t1, ?t2, ?t3]"
    by (simp add: example_defs)
  have p: "parameterRanges False [?t1, ?t2, ?t3] ''bar'' \<noteq> []"
    by (simp add: parameterRanges_def parameterClassified_def included_def)
  have d: "declared False [?t1, ?t2, ?t3] ''bar'' \<or> languageId ?ed = ''cpp''"
    by (simp add: declared_def parameterClassified_def included_def)
  from merge_ordering [OF h p d, of False] show ?thesis
    by (simp add: variableClassified_def parameterClassified_def included_def)
qed

text \<open>
  C7. A parameter-kind token whose modifiers include \<^verbatim>\<open>label\<close> leaves
  \<^verbatim>\<open>accumulatorParam\<close> and \<^verbatim>\<open>accumulatorWithDec\<close> as they are, whether or not its
  modifiers also include \<^verbatim>\<open>declaration\<close>.
\<close>

theorem label_exclusion:
  assumes "''label'' \<in> set modifiers"
  shows "accumulatorParam (classify hg hc r name (Some ''parameter'') modifiers acc) =
           accumulatorParam acc \<and>
         accumulatorWithDec (classify hg hc r name (Some ''parameter'') modifiers acc) =
           accumulatorWithDec acc"
  using assms by (simp add: classify_def)

text \<open>
  A label that also carries \<^verbatim>\<open>declaration\<close>.
\<close>

theorem label_exclusion_witness:
  "accumulatorParam (classify True True (Range 0 0 0 3) ''out'' (Some ''parameter'')
       [''declaration'', ''label''] emptyAccumulators) = [] \<and>
   accumulatorWithDec (classify True True (Range 0 0 0 3) ''out'' (Some ''parameter'')
       [''declaration'', ''label''] emptyAccumulators) = []"
  using label_exclusion [of "[''declaration'', ''label'']" True True "Range 0 0 0 3" "''out''"
      emptyAccumulators]
  by (simp add: emptyAccumulators_def)

text \<open>
  C8. If the text accessor fails on the range of any token, the function returns the
  error \<^verbatim>\<open>SourceUnavailable\<close>; the loop stops at the failing record, whatever the
  accumulators hold and whatever follows in the stream. The result is either this error or
  the map of all the tokens of the stream, never a map of some of them.
\<close>

theorem resolution_failure_aborts:
  "(r \<in> set (tokenRanges data 0 0) \<and> getText ed r = None \<longrightarrow>
      rangesByName data lg ed hg hc = Inl SourceUnavailable) \<and>
   (advance line column deltaLine deltaColumn = (line', column') \<and>
    getText ed (tokenRange line' column' len) = None \<longrightarrow>
      decodeLoop ed lg hg hc (deltaLine # deltaColumn # len # kindIndex # modifierIndex # rest)
        line column acc = Inl SourceUnavailable) \<and>
   (rangesByName data lg ed hg hc = Inl SourceUnavailable \<or>
    (\<exists>toks m. decodeTokens ed lg data 0 0 = Inr toks \<and>
       map tokRange toks = tokenRanges data 0 0 \<and>
       rangesByName data lg ed hg hc = Inr m \<and>
       (\<forall>n. mapGet m n = finalRanges (languageId ed = ''cpp'') hg hc toks n)))"
proof -
  have fails: "rangesByName data lg ed hg hc = Inl SourceUnavailable"
    if "r \<in> set (tokenRanges data 0 0)" and "getText ed r = None"
    using that by (simp add: decodeTokens_fails rangesByName_fails)
  have at_once: "decodeLoop ed lg hg hc
        (deltaLine # deltaColumn # len # kindIndex # modifierIndex # rest) line column acc =
      Inl SourceUnavailable"
    if "advance line column deltaLine deltaColumn = (line', column')"
      and "getText ed (tokenRange line' column' len) = None"
    using that by simp
  have whole: "rangesByName data lg ed hg hc = Inl SourceUnavailable \<or>
    (\<exists>toks m. decodeTokens ed lg data 0 0 = Inr toks \<and>
       map tokRange toks = tokenRanges data 0 0 \<and>
       rangesByName data lg ed hg hc = Inr m \<and>
       (\<forall>n. mapGet m n = finalRanges (languageId ed = ''cpp'') hg hc toks n))"
  proof (cases "decodeTokens ed lg data 0 0")
    case (Inl e)
    then have "rangesByName data lg ed hg hc = Inl e"
      by (rule rangesByName_fails)
    then show ?thesis
      by (cases e) simp
  next
    case (Inr toks)
    with rangesByName_tokens [OF Inr, of hg hc] decodeTokens_ranges [OF Inr] show ?thesis
      by auto
  qed
  from fails at_once whole show ?thesis
    by blast
qed

text \<open>
  A document that is gone from its second line on: the first token resolves, the second
  does not, and no map is returned.
\<close>

theorem resolution_failure_aborts_witness:
  "rangesByName [0, 0, 3, 0, 0,  1, 2, 3, 0, 0]
       \<lparr>tokenTypes = [''variable''], tokenModifiers = []\<rparr>
       (closedAfter 1 [''bar = 1'', ''f(bar)''] ''python'') False False = Inl SourceUnavailable \<and>
   Range 1 2 1 5 \<in> set (tokenRanges [0, 0, 3, 0, 0,  1, 2, 3, 0, 0] 0 0) \<and>
   getText (closedAfter 1 [''bar = 1'', ''f(bar)''] ''python'') (Range 0 0 0 3) = Some ''bar'' \<and>
   getText (closedAfter 1 [''bar = 1'', ''f(bar)''] ''python'') (Range 1 2 1 5) = None"
proof -
  let ?ed = "closedAfter 1 [''bar = 1'', ''f(bar)''] ''python''"
  let ?data = "[0, 0, 3, 0, 0,  1, 2, 3, 0, 0] :: 32 word list"
  have r: "Range 1 2 1 5 \<in> set (tokenRanges ?data 0 0)"
    by (simp add: advance_def tokenRange_def Range_def)
  have g: "getText ?ed (Range 1 2 1 5) = None" "getText ?ed (Range 0 0 0 3) = Some ''bar''"
    by (simp_all add: closedAfter_def documentEditor_def Range_def lookup_def)
  from resolution_failure_aborts [where r = "Range 1 2 1 5" and data = ?data and ed = ?ed
      and lg = "\<lparr>tokenTypes = [''variable''], tokenModifiers = []\<rparr>" and hg = False
      and hc = False] r g
  show ?thesis
    by simp
qed

text \<open>
  C9. Every name that is a key of \<^verbatim>\<open>accumulatorParam\<close> is a key of
  \<^verbatim>\<open>accumulatorWithDec\<close>: at the start of the loop, after every token, and so at every
  point of the loop and at its end. The entry of \<^verbatim>\<open>accumulatorWithDec\<close> is made at the
  first parameter-classified token of the name, false unless that token carries
  \<^verbatim>\<open>declaration\<close>.
\<close>

theorem parameter_names_have_flag:
  "keysInv emptyAccumulators \<and>
   (keysInv acc \<longrightarrow> keysInv (classify hg hc r name kind modifiers acc)) \<and>
   (keysInv acc \<and> decodeLoop ed lg hg hc data line column acc = Inr acc' \<longrightarrow> keysInv acc') \<and>
   (decodeLoop ed lg hg hc data 0 0 emptyAccumulators = Inr acc'' \<longrightarrow>
      keys (accumulatorParam acc'') \<subseteq> keys (accumulatorWithDec acc'')) \<and>
   (\<not> mapHas (accumulatorWithDec acc) name \<and>
    (hg \<or> (''global'' \<notin> set modifiers \<and> length name > 2)) \<and>
    ''label'' \<notin> set modifiers \<longrightarrow>
      mapGet (accumulatorWithDec (classify hg hc r name (Some ''parameter'') modifiers acc)) name =
        Some (''declaration'' \<in> set modifiers))"
proof -
  have init: "keysInv emptyAccumulators"
    by (simp add: keysInv_def emptyAccumulators_def keys_def)
  have loop: "keysInv b" if "keysInv a" and "decodeLoop ed lg hg hc data l c a = Inr b" for a b l c
    using that fold_classify_keysInv [of a hg hc]
    by (auto simp: decodeLoop_tokens split: sum.splits)
  have first: "mapGet (accumulatorWithDec (classify hg hc r name (Some ''parameter'') modifiers acc))
      name = Some (''declaration'' \<in> set modifiers)"
    if "\<not> mapHas (accumulatorWithDec acc) name"
      and "hg \<or> (''global'' \<notin> set modifiers \<and> length name > 2)"
      and "''label'' \<notin> set modifiers"
    using that by (auto simp: classify_def Let_def mapGet_mapSet)
  from init loop [of acc line column acc'] loop [OF init, of 0 0 acc''] first
    classify_keysInv [of acc hg hc r name kind modifiers]
  show ?thesis
    unfolding keysInv_def by blast
qed

text \<open>
  A parameter that is never declared: it has ranges and a flag, and the flag is false.
\<close>

theorem parameter_names_have_flag_witness:
  "decodeLoop (documentEditor [''def f(bar):'', ''  print(bar)''] ''python'')
       \<lparr>tokenTypes = [''parameter''], tokenModifiers = [''declaration'']\<rparr> False False
       [0, 6, 3, 0, 0,  1, 8, 3, 0, 0] 0 0 emptyAccumulators =
     Inr \<lparr>accumulatorParam = [(''bar'', [Range 0 6 0 9, Range 1 8 1 11])],
          accumulatorVar = [], accumulatorWithDec = [(''bar'', False)]\<rparr> \<and>
   keys [(''bar'', [Range 0 6 0 9, Range 1 8 1 11])] \<subseteq> keys [(''bar'', False)] \<and>
   mapGet (accumulatorWithDec (classify False False (Range 0 6 0 9) ''bar'' (Some ''parameter'') []
     emptyAccumulators)) ''bar'' = Some False"
proof -
  let ?ed = "documentEditor [''def f(bar):'', ''  print(bar)''] ''python''"
  let ?lg = "\<lparr>tokenTypes = [''parameter''], tokenModifiers = [''declaration'']\<rparr>"
  let ?acc = "\<lparr>accumulatorParam = [(''bar'', [Range 0 6 0 9, Range 1 8 1 11])],
          accumulatorVar = [], accumulatorWithDec = [(''bar'', False)]\<rparr>"
  have h: "decodeLoop ?ed ?lg False False [0, 6, 3, 0, 0,  1, 8, 3, 0, 0] 0 0 emptyAccumulators =
      Inr ?acc"
    by (simp add: example_defs)
  have e: "\<not> mapHas (accumulatorWithDec emptyAccumulators) ''bar''"
    by (simp add: mapHas_def mapGet_def emptyAccumulators_def)
  from parameter_names_have_flag [where acc = emptyAccumulators and hg = False and hc = False
      and r = "Range 0 6 0 9" and name = "''bar''" and kind = "Some ''parameter''"
      and modifiers = "[]" and ed = ?ed and lg = ?lg and data = "[0, 6, 3, 0, 0,  1, 8, 3, 0, 0]"
      and line = 0 and column = 0 and acc' = ?acc and acc'' = ?acc] h e
  show ?thesis
    by simp
qed

text \<open>
  C10. Discarding an undeclared name (line 127) only deletes its entry of
  \<^verbatim>\<open>accumulatorParam\<close>. When the language is not \<^verbatim>\<open>cpp\<close> and no parameter-classified
  token of a name carries \<^verbatim>\<open>declaration\<close>, the returned mapping holds under that name what
  \<^verbatim>\<open>accumulatorVar\<close> held at the end of the loop: its variable-classified ranges, if it has
  any, so the name is still in the result.
\<close>

theorem discard_keeps_variable_ranges:
  "accumulatorVar (mergeEntry (name, False) acc) = accumulatorVar acc \<and>
   accumulatorParam (mergeEntry (name, False) acc) = mapDelete name (accumulatorParam acc) \<and>
   (decodeLoop ed lg hg hc data 0 0 emptyAccumulators = Inr acc' \<and>
    languageId ed \<noteq> ''cpp'' \<and> mapGet (accumulatorWithDec acc') n = Some False \<longrightarrow>
      (\<exists>m. rangesByName data lg ed hg hc = Inr m \<and>
         mapGet m n = mapGet (accumulatorVar acc') n)) \<and>
   (decodeTokens ed lg data 0 0 = Inr toks \<and> languageId ed \<noteq> ''cpp'' \<and>
    \<not> declared hg toks n \<and> variableRanges hg hc toks n \<noteq> [] \<longrightarrow>
      (\<exists>m. rangesByName data lg ed hg hc = Inr m \<and>
         mapGet m n = Some (variableRanges hg hc toks n)))"
proof -
  have frame: "accumulatorVar (mergeEntry (name, False) acc) = accumulatorVar acc"
    "accumulatorParam (mergeEntry (name, False) acc) = mapDelete name (accumulatorParam acc)"
    by (simp_all add: mergeEntry_def)
  have state: "\<exists>m. rangesByName data lg ed hg hc = Inr m \<and>
         mapGet m n = mapGet (accumulatorVar acc') n"
    if loop: "decodeLoop ed lg hg hc data 0 0 emptyAccumulators = Inr acc'"
      and l: "languageId ed \<noteq> ''cpp''" and f: "mapGet (accumulatorWithDec acc') n = Some False"
  proof -
    from loop obtain ts where "acc' = fold (classifyToken hg hc) ts emptyAccumulators"
      by (auto simp: decodeLoop_tokens split: sum.splits)
    then have "distinct (map fst (accumulatorWithDec acc'))"
      by (simp add: fold_classify_distinct emptyAccumulators_def)
    moreover from l have "forceDeclared ed acc' = acc'"
      by (simp add: forceDeclared_def)
    ultimately have "mapGet (accumulatorVar (reconcile (forceDeclared ed acc'))) n =
        mapGet (accumulatorVar acc') n"
      using f by (simp add: reconcile_var merged_def)
    with loop show ?thesis
      by (simp add: rangesByName_def)
  qed
  have result: "\<exists>m. rangesByName data lg ed hg hc = Inr m \<and>
         mapGet m n = Some (variableRanges hg hc toks n)"
    if "decodeTokens ed lg data 0 0 = Inr toks" and "languageId ed \<noteq> ''cpp''"
      and "\<not> declared hg toks n" and "variableRanges hg hc toks n \<noteq> []"
    using rangesByName_tokens [OF that(1), of hg hc] that(2-4)
    by (auto simp: finalRanges_def extend_def)
  from frame state result show ?thesis
    by blast
qed

text \<open>
  A variable that is also used as an undeclared parameter.
\<close>

theorem discard_keeps_variable_ranges_witness:
  "\<exists>m. rangesByName [0, 0, 3, 0, 0,  1, 2, 3, 1, 0]
          \<lparr>tokenTypes = [''variable'', ''parameter''], tokenModifiers = [''declaration'']\<rparr>
          (documentEditor [''bar = 1'', ''f(bar)''] ''python'') False False = Inr m \<and>
        mapGet m ''bar'' = Some [Range 0 0 0 3]"
proof -
  let ?lg = "\<lparr>tokenTypes = [''variable'', ''parameter''], tokenModifiers = [''declaration'']\<rparr>"
  let ?ed = "documentEditor [''bar = 1'', ''f(bar)''] ''python''"
  let ?data = "[0, 0, 3, 0, 0,  1, 2, 3, 1, 0] :: 32 word list"
  let ?acc = "\<lparr>accumulatorParam = [(''bar'', [Range 1 2 1 5])],
          accumulatorVar = [(''bar'', [Range 0 0 0 3])], accumulatorWithDec = [(''bar'', False)]\<rparr>"
  let ?t1 = "\<lparr>tokRange = Range 0 0 0 3, tokName = ''bar'', tokKind = Some ''variable'',
              tokModifiers = []\<rparr>"
  let ?t2 = "\<lparr>tokRange = Range 1 2 1 5, tokName = ''bar'', tokKind = Some ''parameter'',
              tokModifiers = []\<rparr>"
  have h: "decodeLoop ?ed ?lg False False ?data 0 0 emptyAccumulators = Inr ?acc"
    by (simp add: example_defs)
  have h': "decodeTokens ?ed ?lg ?data 0 0 = Inr [?t1, ?t2]"
    by (simp add: example_defs)
  have l: "languageId ?ed \<noteq> ''cpp''"
    by (simp add: documentEditor_def)
  from discard_keeps_variable_ranges [where name = "''bar''" and acc = ?acc and ed = ?ed
      and lg = ?lg and hg = False and hc = False and data = ?data and acc' = ?acc
      and n = "''bar''" and toks = "[?t1, ?t2]"] h h' l
  show ?thesis
    by (simp add: mapGet_def)
qed

end
